theory Spec2Isabelle
  imports Main
begin

section \<open>The query client factory (src/lib/get-query-client.ts)\<close>

text \<open>
  A \<open>QueryClient\<close> object is built by the library constructor from the configuration
  literal of \<open>makeQueryClient\<close>. The model keeps the part of the object that the
  factory sets: \<open>defaultOptions.queries\<close> with its three options.
\<close>

record queries_options =
  staleTime :: int
  refetchOnWindowFocus :: bool
  retry :: int

record default_options =
  queries :: queries_options

record QueryClient =
  defaultOptions :: default_options

text \<open>
  Objects live in a store and are handled by reference. A reference is the position of
  the object in the store; \<open>new\<close> puts the object behind every object allocated so far
  and yields its position, so reference equality of the source is equality of positions.
  The module-level variable \<open>browserQueryClient\<close> holds a reference or \<open>undefined\<close>
  (\<open>None\<close>).
\<close>

type_synonym ref = nat

record process =
  heap :: "QueryClient list"
  browserQueryClient :: "ref option"

text \<open>The state after the module is loaded: nothing allocated, the variable \<open>undefined\<close>.\<close>

definition module_loaded :: process where
  "module_loaded = \<lparr>heap = [], browserQueryClient = None\<rparr>"

definition new_QueryClient :: "default_options \<Rightarrow> process \<Rightarrow> ref \<times> process" where
  "new_QueryClient opts p =
     (length (heap p), p\<lparr>heap := heap p @ [\<lparr>defaultOptions = opts\<rparr>]\<rparr>)"

definition makeQueryClient :: "process \<Rightarrow> ref \<times> process" where
  "makeQueryClient p =
     new_QueryClient
       \<lparr>queries = \<lparr>staleTime = 60 * 1000, refetchOnWindowFocus = False, retry = 1\<rparr>\<rparr> p"

text \<open>
  The only assignment statement of the module is \<open>browserQueryClient = makeQueryClient()\<close>.
  Each call reports the assignments it executed, so that writes can be counted.
\<close>

datatype event = Assign_browserQueryClient ref

text \<open>
  \<open>isServer\<close> is a constant of the library, fixed by the runtime the module runs in; it is
  a parameter here. \<open>!browserQueryClient\<close> holds exactly when the variable is \<open>undefined\<close>,
  since an object is never falsy.
\<close>

definition getQueryClient :: "bool \<Rightarrow> process \<Rightarrow> ref \<times> event list \<times> process" where
  "getQueryClient isServer p =
     (if isServer then
        (case makeQueryClient p of (c, p') \<Rightarrow> (c, [], p'))
      else
        (case browserQueryClient p of
           None \<Rightarrow>
             (case makeQueryClient p of
                (c, p') \<Rightarrow> (c, [Assign_browserQueryClient c], p'\<lparr>browserQueryClient := Some c\<rparr>))
         | Some c \<Rightarrow> (c, [], p)))"

text \<open>
  A sequence of calls, one per element of the list (the value of \<open>isServer\<close> at that call),
  each starting in the state the previous one left: the references returned, the
  assignments executed, and the final state.
\<close>

fun calls :: "bool list \<Rightarrow> process \<Rightarrow> ref list \<times> event list \<times> process" where
  "calls [] p = ([], [], p)"
| "calls (e # es) p =
     (case getQueryClient e p of
        (c, w, p') \<Rightarrow> (case calls es p' of (cs, ws, p'') \<Rightarrow> (c # cs, w @ ws, p'')))"

definition returned :: "bool list \<Rightarrow> process \<Rightarrow> ref list" where
  "returned es p = fst (calls es p)"

definition assignments :: "bool list \<Rightarrow> process \<Rightarrow> event list" where
  "assignments es p = fst (snd (calls es p))"

definition state_after :: "bool list \<Rightarrow> process \<Rightarrow> process" where
  "state_after es p = snd (snd (calls es p))"

text \<open>A state is well formed when the stored reference, if any, points into the store.\<close>

definition stored_allocated :: "process \<Rightarrow> bool" where
  "stored_allocated p =
     (case browserQueryClient p of None \<Rightarrow> True | Some c \<Rightarrow> c < length (heap p))"


text \<open>The object every call of \<open>makeQueryClient\<close> constructs.\<close>

definition factory_client :: QueryClient where
  "factory_client =
     \<lparr>defaultOptions =
        \<lparr>queries = \<lparr>staleTime = 60000, refetchOnWindowFocus = False, retry = 1\<rparr>\<rparr>\<rparr>"

definition only_factory_objects :: "process \<Rightarrow> bool" where
  "only_factory_objects p = list_all (\<lambda>c. c = factory_client) (heap p)"


section \<open>The mock endpoint (app/api/posts/route.ts)\<close>

text \<open>
  A JavaScript string is a sequence of UTF-16 code units. \<open>str\<close> turns an ASCII literal
  into its code units; the Hangul syllables of the post titles are written as code units.
\<close>

type_synonym jsstring = "nat list"

definition str :: "string \<Rightarrow> jsstring" where
  "str s = map of_char s"

text \<open>
  A JavaScript number as far as the endpoint meets one. \<open>Num k\<close> is the integer \<open>k\<close>, used
  only up to \<open>2 ^ 53\<close> in magnitude, where a double holds every integer exactly; the sign of
  zero is not kept. \<open>Huge negative\<close> is the number an integer beyond that range becomes: a
  rounded double of magnitude at least \<open>2 ^ 53\<close>, or an infinity, with the given sign. Its
  exact value is not fixed here.
\<close>

datatype jsnumber = NaN | Num int | Huge bool

record Post =
  post_id :: int
  title :: jsstring
  author :: jsstring
  createdAt :: jsstring

record response_meta =
  fetchedAt :: jsstring
  totalCount :: int
  executedOn :: jsstring

record PostsResponse =
  response_posts :: "Post list"
  meta :: response_meta

text \<open>The module-level array \<open>posts\<close> of the route, as the module's state.\<close>

record route_module =
  posts :: "Post list"

definition route_loaded :: route_module where
  "route_loaded =
     \<lparr>posts =
        [\<lparr>post_id = 1,
          title = str ''TanStack Query '' @ [0xC2DC, 0xC791, 0xD558, 0xAE30],
          author = [0xAE40, 0xAC1C, 0xBC1C],
          createdAt = str ''2025-01-15''\<rparr>,
         \<lparr>post_id = 2,
          title = str ''CSR vs SSR '' @ [0xC644, 0xBCBD] @ str '' '' @ [0xAC00, 0xC774, 0xB4DC],
          author = [0xC774, 0xD504, 0xB860, 0xD2B8],
          createdAt = str ''2025-01-20''\<rparr>,
         \<lparr>post_id = 3,
          title = str ''Next.js App Router '' @ [0xC774, 0xD574, 0xD558, 0xAE30],
          author = [0xBC15, 0xB9AC, 0xC561, 0xD2B8],
          createdAt = str ''2025-02-01''\<rparr>,
         \<lparr>post_id = 4,
          title = str ''React 19 '' @ [0xC0C8, 0xB85C, 0xC6B4] @ str '' '' @ [0xAE30, 0xB2A5, 0xB4E4],
          author = [0xCD5C, 0xC790, 0xBC14],
          createdAt = str ''2025-02-10''\<rparr>,
         \<lparr>post_id = 5,
          title = str ''Hydration'' @ [0xC774, 0xB780] @ str '' ''
                  @ [0xBB34, 0xC5C7, 0xC778, 0xAC00] @ str ''?'',
          author = [0xC815, 0xD0C0, 0xC785],
          createdAt = str ''2025-02-15''\<rparr>]\<rparr>"

text \<open>
  \<open>request.nextUrl.searchParams\<close>: the name and value pairs of the query string, in
  order. \<open>get\<close> yields the first value stored under the name, or \<open>null\<close> (\<open>None\<close>).
\<close>

record NextRequest =
  searchParams :: "(jsstring \<times> jsstring) list"

definition searchParams_get :: "(jsstring \<times> jsstring) list \<Rightarrow> jsstring \<Rightarrow> jsstring option" where
  "searchParams_get ps name = map_of ps name"

text \<open>\<open>a || b\<close> on a string or \<open>null\<close>: \<open>null\<close> and the empty string are falsy.\<close>

definition or_string :: "jsstring option \<Rightarrow> jsstring \<Rightarrow> jsstring" where
  "or_string a b = (case a of None \<Rightarrow> b | Some s \<Rightarrow> if s = [] then b else s)"

text \<open>
  \<open>parseInt(string, 10)\<close> as ECMAScript defines it: leading white space and line
  terminators are skipped, one sign is read, then the longest run of decimal digits;
  without a digit the result is \<open>NaN\<close>, and whatever follows the digits is ignored. The
  value of the digits is the result when a double holds it exactly; a larger one is rounded
  (\<open>Huge\<close>).
\<close>

definition StrWhiteSpaceChar :: "nat \<Rightarrow> bool" where
  "StrWhiteSpaceChar c =
     (c \<in> {0x9, 0xA, 0xB, 0xC, 0xD, 0x20, 0xA0, 0x1680, 0x2028, 0x2029, 0x202F, 0x205F,
            0x3000, 0xFEFF}
      \<or> (0x2000 \<le> c \<and> c \<le> 0x200A))"

definition decimal_digit :: "nat \<Rightarrow> bool" where
  "decimal_digit c = (48 \<le> c \<and> c \<le> 57)"

definition digits_value :: "jsstring \<Rightarrow> nat" where
  "digits_value z = foldl (\<lambda>acc c. 10 * acc + (c - 48)) 0 z"

definition parseInt :: "jsstring \<Rightarrow> jsnumber" where
  "parseInt inputString =
     (let S = dropWhile StrWhiteSpaceChar inputString;
          sign = (if S \<noteq> [] \<and> hd S = 45 then - 1 else 1);
          S' = (if S \<noteq> [] \<and> (hd S = 43 \<or> hd S = 45) then tl S else S);
          Z = takeWhile decimal_digit S'
      in if Z = [] then NaN
         else if digits_value Z \<le> 2 ^ 53 then Num (sign * int (digits_value Z))
         else Huge (sign < 0))"

text \<open>
  The decimal numeral of a natural number, to say what a numeric parameter is.
\<close>

fun decimal :: "nat \<Rightarrow> jsstring" where
  "decimal n = (if n < 10 then [48 + n] else decimal (n div 10) @ [48 + n mod 10])"

declare decimal.simps [simp del]

text \<open>
  \<open>setTimeout(callback, delay)\<close> of the Node.js runtime, which serves the route: a delay
  that is \<open>NaN\<close>, less than 1 or larger than 2147483647 is set to 1. The result is the
  number of milliseconds the timer runs.
\<close>

definition setTimeout_wait :: "jsnumber \<Rightarrow> nat" where
  "setTimeout_wait delay =
     (case delay of
        NaN \<Rightarrow> 1
      | Huge negative \<Rightarrow> 1
      | Num k \<Rightarrow> if k < 1 \<or> 2147483647 < k then 1 else nat k)"

text \<open>
  The handler arms one timer with \<open>delay\<close>, is suspended until the timer fires, and then
  builds the answer. The model records the value handed to \<open>setTimeout\<close>, the milliseconds
  the timer runs before the handler goes on to answer, and the JSON body.
  \<open>new Date().toISOString()\<close> reads the clock after the wait: the reading is the parameter
  \<open>now\<close>. The local \<open>isServer\<close> of the handler is computed and never used.
\<close>

record GET_result =
  setTimeout_delay :: jsnumber
  waited_ms :: nat
  json :: PostsResponse

definition GET :: "NextRequest \<Rightarrow> jsstring \<Rightarrow> route_module \<Rightarrow> GET_result \<times> route_module" where
  "GET request now m =
     (let delay = parseInt (or_string (searchParams_get (searchParams request) (str ''delay''))
                                      (str ''1000''));
          waited = setTimeout_wait delay;
          timestamp = now
      in (\<lparr>setTimeout_delay = delay,
           waited_ms = waited,
           json = \<lparr>response_posts = posts m,
                    meta = \<lparr>fetchedAt = timestamp,
                            totalCount = int (length (posts m)),
                            executedOn = str ''server''\<rparr>\<rparr>\<rparr>,
          m))"

text \<open>A response body with its time stamp blanked, to compare bodies up to the time stamp.\<close>

definition without_fetchedAt :: "PostsResponse \<Rightarrow> PostsResponse" where
  "without_fetchedAt b = b\<lparr>meta := (meta b)\<lparr>fetchedAt := []\<rparr>\<rparr>"


section \<open>Query options and hooks (src/hooks/usePosts.ts)\<close>

text \<open>
  A parameter with a default value: an omitted argument (\<open>None\<close>) takes the default.
  Delays are integers of milliseconds.
\<close>

definition default_param :: "'a option \<Rightarrow> 'a \<Rightarrow> 'a" where
  "default_param arg d = (case arg of None \<Rightarrow> d | Some v \<Rightarrow> v)"

datatype key_part = KStr jsstring | KNum int

text \<open>
  \<open>queryOptions\<close> of the library returns its argument. The query function is the closure
  \<open>() => fetchPosts(delay)\<close>, kept as the call it makes.
\<close>

datatype query_fn = FetchPosts int

record query_options =
  queryKey :: "key_part list"
  queryFn :: query_fn

definition postsQueryOptions :: "int option \<Rightarrow> query_options" where
  "postsQueryOptions arg =
     (let delay = default_param arg 1000
      in \<lparr>queryKey = [KStr (str ''posts''), KNum delay],
          queryFn = FetchPosts delay\<rparr>)"

text \<open>
  The hooks and the pages hand the options to the library (\<open>useQuery\<close>,
  \<open>useSuspenseQuery\<close>, \<open>prefetchQuery\<close>), which is a parameter here.
\<close>

definition usePosts :: "(query_options \<Rightarrow> 'r) \<Rightarrow> int option \<Rightarrow> 'r" where
  "usePosts useQuery arg =
     (let delay = default_param arg 1000 in useQuery (postsQueryOptions (Some delay)))"

definition usePostsSuspense :: "(query_options \<Rightarrow> 'r) \<Rightarrow> int option \<Rightarrow> 'r" where
  "usePostsSuspense useSuspenseQuery arg =
     (let delay = default_param arg 1000 in useSuspenseQuery (postsQueryOptions (Some delay)))"

text \<open>The prefetch of the SSR page and the hook call of the list it renders.\<close>

definition SSRDemoPage_prefetch :: "(query_options \<Rightarrow> 'r) \<Rightarrow> 'r" where
  "SSRDemoPage_prefetch prefetchQuery = prefetchQuery (postsQueryOptions (Some 1500))"

definition SSRPostList_query :: "(query_options \<Rightarrow> 'r) \<Rightarrow> 'r" where
  "SSRPostList_query useQuery = usePosts useQuery (Some 1500)"

text \<open>The prefetch of the streaming page and the hook call of the list it renders.\<close>

definition PostListWithData_prefetch :: "(query_options \<Rightarrow> 'r) \<Rightarrow> 'r" where
  "PostListWithData_prefetch prefetchQuery = prefetchQuery (postsQueryOptions (Some 2000))"

definition StreamingPostList_query :: "(query_options \<Rightarrow> 'r) \<Rightarrow> 'r" where
  "StreamingPostList_query useSuspenseQuery = usePostsSuspense useSuspenseQuery (Some 2000)"


section \<open>Properties of the factory\<close>

subsection \<open>One call\<close>

lemma getQueryClient_server:
  "getQueryClient True p = (length (heap p), [], p\<lparr>heap := heap p @ [factory_client]\<rparr>)"
  by (simp add: getQueryClient_def makeQueryClient_def new_QueryClient_def factory_client_def)

lemma getQueryClient_browser_first:
  "browserQueryClient p = None \<Longrightarrow>
   getQueryClient False p =
     (length (heap p), [Assign_browserQueryClient (length (heap p))],
      p\<lparr>heap := heap p @ [factory_client], browserQueryClient := Some (length (heap p))\<rparr>)"
  by (simp add: getQueryClient_def makeQueryClient_def new_QueryClient_def factory_client_def)

lemma getQueryClient_browser_later:
  "browserQueryClient p = Some c \<Longrightarrow> getQueryClient False p = (c, [], p)"
  by (simp add: getQueryClient_def)

lemma getQueryClient_cases:
  obtains (server) "e" "getQueryClient e p = (length (heap p), [], p\<lparr>heap := heap p @ [factory_client]\<rparr>)"
  | (first) "\<not> e" "browserQueryClient p = None" "getQueryClient e p =
     (length (heap p), [Assign_browserQueryClient (length (heap p))],
      p\<lparr>heap := heap p @ [factory_client], browserQueryClient := Some (length (heap p))\<rparr>)"
  | (later) c where "\<not> e" "browserQueryClient p = Some c" "getQueryClient e p = (c, [], p)"
  using getQueryClient_server getQueryClient_browser_first getQueryClient_browser_later
  by (cases e; cases "browserQueryClient p") auto

subsection \<open>Sequences of calls\<close>

lemma returned_Nil [simp]: "returned [] p = []"
  by (simp add: returned_def)

lemma assignments_Nil [simp]: "assignments [] p = []"
  by (simp add: assignments_def)

lemma state_after_Nil [simp]: "state_after [] p = p"
  by (simp add: state_after_def)

lemma returned_Cons:
  "returned (e # es) p = fst (getQueryClient e p) # returned es (snd (snd (getQueryClient e p)))"
  by (simp add: returned_def split: prod.splits)

lemma assignments_Cons:
  "assignments (e # es) p =
     fst (snd (getQueryClient e p)) @ assignments es (snd (snd (getQueryClient e p)))"
  by (simp add: assignments_def split: prod.splits)

lemma state_after_Cons:
  "state_after (e # es) p = state_after es (snd (snd (getQueryClient e p)))"
  by (simp add: state_after_def split: prod.splits)

lemmas calls_Cons = returned_Cons assignments_Cons state_after_Cons

lemma length_returned [simp]: "length (returned es p) = length es"
  by (induction es arbitrary: p) (simp_all add: returned_Cons)

lemma stored_stays:
  "browserQueryClient p = Some c \<Longrightarrow> browserQueryClient (state_after es p) = Some c"
proof (induction es arbitrary: p)
  case Nil
  then show ?case by simp
next
  case (Cons e es)
  show ?case
    by (cases e p rule: getQueryClient_cases) (use Cons in \<open>simp_all add: state_after_Cons\<close>)
qed

lemma heap_grows:
  "\<exists>zs. heap (state_after es p) = heap p @ zs"
proof (induction es arbitrary: p)
  case Nil
  then show ?case by simp
next
  case (Cons e es)
  show ?case
  proof (cases e p rule: getQueryClient_cases)
    case server
    obtain zs where "heap (state_after es (p\<lparr>heap := heap p @ [factory_client]\<rparr>)) = (heap p @ [factory_client]) @ zs"
      using Cons [of "p\<lparr>heap := heap p @ [factory_client]\<rparr>"] by auto
    with server show ?thesis by (simp add: state_after_Cons)
  next
    case first
    let ?p = "p\<lparr>heap := heap p @ [factory_client], browserQueryClient := Some (length (heap p))\<rparr>"
    obtain zs where "heap (state_after es ?p) = (heap p @ [factory_client]) @ zs"
      using Cons [of ?p] by auto
    with first show ?thesis by (simp add: state_after_Cons)
  next
    case (later c)
    with Cons show ?thesis by (simp add: state_after_Cons)
  qed
qed


lemma heap_length_mono: "length (heap p) \<le> length (heap (state_after es p))"
  using heap_grows [of es p] by auto

lemma server_result_fresh:
  "i < length es \<Longrightarrow> es ! i \<Longrightarrow>
   length (heap p) \<le> returned es p ! i \<and> returned es p ! i < length (heap (state_after es p))"
proof (induction es arbitrary: p i)
  case Nil
  then show ?case by simp
next
  case (Cons e es)
  let ?q = "snd (snd (getQueryClient e p))"
  have q: "length (heap p) \<le> length (heap ?q)"
    by (cases e p rule: getQueryClient_cases) simp_all
  show ?case
  proof (cases i)
    case 0
    with Cons.prems have e by simp
    then have "returned (e # es) p ! 0 = length (heap p)" "length (heap ?q) = Suc (length (heap p))"
      by (simp_all add: returned_Cons getQueryClient_server)
    with 0 heap_length_mono [of ?q es] show ?thesis
      by (simp add: state_after_Cons)
  next
    case (Suc k)
    with Cons.prems have "k < length es" "es ! k" by simp_all
    from Cons.IH [OF this, of ?q] q Suc show ?thesis
      by (simp add: returned_Cons state_after_Cons)
  qed
qed

lemma browser_result_stored:
  "i < length es \<Longrightarrow> \<not> es ! i \<Longrightarrow>
   browserQueryClient (state_after es p) = Some (returned es p ! i)"
proof (induction es arbitrary: p i)
  case Nil
  then show ?case by simp
next
  case (Cons e es)
  let ?q = "snd (snd (getQueryClient e p))"
  show ?case
  proof (cases i)
    case 0
    with Cons.prems have "\<not> e" by simp
    then have "browserQueryClient ?q = Some (fst (getQueryClient e p))"
      by (cases e p rule: getQueryClient_cases) simp_all
    from stored_stays [OF this, of es] 0 show ?thesis
      by (simp add: returned_Cons state_after_Cons)
  next
    case (Suc k)
    with Cons.prems have "k < length es" "\<not> es ! k" by simp_all
    from Cons.IH [OF this, of ?q] Suc show ?thesis
      by (simp add: returned_Cons state_after_Cons)
  qed
qed

lemma server_results_differ:
  "i < length es \<Longrightarrow> j < length es \<Longrightarrow> i < j \<Longrightarrow> es ! i \<Longrightarrow> es ! j \<Longrightarrow>
   returned es p ! i < returned es p ! j"
proof (induction es arbitrary: p i j)
  case Nil
  then show ?case by simp
next
  case (Cons e es)
  let ?q = "snd (snd (getQueryClient e p))"
  from Cons.prems obtain k where j: "j = Suc k" by (cases j) simp_all
  with Cons.prems have k: "k < length es" "es ! k" by simp_all
  show ?case
  proof (cases i)
    case 0
    with Cons.prems have e by simp
    then have "returned (e # es) p ! 0 = length (heap p)" "length (heap ?q) = Suc (length (heap p))"
      by (simp_all add: returned_Cons getQueryClient_server)
    with server_result_fresh [OF k, of ?q] 0 j show ?thesis
      by (simp add: returned_Cons)
  next
    case (Suc l)
    with Cons.prems j have "l < length es" "l < k" "es ! l" by simp_all
    from Cons.IH [OF this(1) k(1) this(2) this(3) k(2), of ?q] Suc j show ?thesis
      by (simp add: returned_Cons)
  qed
qed

lemma stored_allocated_step:
  "stored_allocated p \<Longrightarrow> stored_allocated (snd (snd (getQueryClient e p)))"
  by (cases e p rule: getQueryClient_cases) (auto simp: stored_allocated_def split: option.splits)

lemma stored_allocated_after:
  "stored_allocated p \<Longrightarrow> stored_allocated (state_after es p)"
  by (induction es arbitrary: p) (simp_all add: state_after_Cons stored_allocated_step)

lemma browser_result_old_or_fresh:
  "i < length es \<Longrightarrow> \<not> es ! i \<Longrightarrow>
   browserQueryClient p = Some (returned es p ! i) \<or>
   (browserQueryClient p = None \<and> length (heap p) \<le> returned es p ! i)"
proof (induction es arbitrary: p i)
  case Nil
  then show ?case by simp
next
  case (Cons e es)
  let ?q = "snd (snd (getQueryClient e p))"
  show ?case
  proof (cases i)
    case 0
    with Cons.prems have "\<not> e" by simp
    with 0 show ?thesis
      by (cases e p rule: getQueryClient_cases) (simp_all add: returned_Cons)
  next
    case (Suc k)
    with Cons.prems have k: "k < length es" "\<not> es ! k" by simp_all
    from Cons.IH [OF k, of ?q] Suc show ?thesis
      by (cases e p rule: getQueryClient_cases) (auto simp: returned_Cons)
  qed
qed

lemma server_browser_differ:
  "stored_allocated p \<Longrightarrow> i < length es \<Longrightarrow> j < length es \<Longrightarrow> es ! i \<Longrightarrow> \<not> es ! j \<Longrightarrow>
   returned es p ! i \<noteq> returned es p ! j"
proof (induction es arbitrary: p i j)
  case Nil
  then show ?case by simp
next
  case (Cons e es)
  let ?q = "snd (snd (getQueryClient e p))"
  have q: "stored_allocated ?q" using Cons.prems(1) by (rule stored_allocated_step)
  show ?case
  proof (cases i)
    case i0: 0
    with Cons.prems have e: e by simp
    with Cons.prems obtain k where j: "j = Suc k" by (cases j) auto
    with Cons.prems have k: "k < length es" "\<not> es ! k" by simp_all
    from e have r: "returned (e # es) p ! 0 = length (heap p)"
        "length (heap ?q) = Suc (length (heap p))" "browserQueryClient ?q = browserQueryClient p"
      by (simp_all add: returned_Cons getQueryClient_server)
    from browser_result_old_or_fresh [OF k, of ?q] r Cons.prems(1) i0 j show ?thesis
      by (auto simp: returned_Cons stored_allocated_def)
  next
    case (Suc l)
    with Cons.prems have l: "l < length es" "es ! l" by simp_all
    show ?thesis
    proof (cases j)
      case 0
      with Cons.prems have "\<not> e" by simp
      then have "browserQueryClient ?q = Some (fst (getQueryClient e p))"
        by (cases e p rule: getQueryClient_cases) simp_all
      with q have "fst (getQueryClient e p) < length (heap ?q)"
        by (simp add: stored_allocated_def)
      with server_result_fresh [OF l, of ?q] Suc 0 show ?thesis
        by (simp add: returned_Cons)
    next
      case (Suc k)
      with Cons.prems have k: "k < length es" "\<not> es ! k" by simp_all
      from Cons.IH [OF q l(1) k(1) l(2) k(2)] Suc \<open>i = Suc l\<close> show ?thesis
        by (simp add: returned_Cons)
    qed
  qed
qed


lemma heap_kept:
  "k < length (heap p) \<Longrightarrow> heap (state_after es p) ! k = heap p ! k"
  using heap_grows [of es p] by (auto simp: nth_append)

lemma only_factory_objects_step:
  "only_factory_objects p \<Longrightarrow> only_factory_objects (snd (snd (getQueryClient e p)))"
  by (cases e p rule: getQueryClient_cases) (simp_all add: only_factory_objects_def)

lemma only_factory_objects_after:
  "only_factory_objects p \<Longrightarrow> only_factory_objects (state_after es p)"
  by (induction es arbitrary: p) (simp_all add: state_after_Cons only_factory_objects_step)

lemma returned_allocated:
  assumes "stored_allocated p" "i < length es"
  shows "returned es p ! i < length (heap (state_after es p))"
proof (cases "es ! i")
  case True
  with assms(2) show ?thesis by (simp add: server_result_fresh)
next
  case False
  with assms(2) have "browserQueryClient (state_after es p) = Some (returned es p ! i)"
    by (rule browser_result_stored)
  with stored_allocated_after [OF assms(1), of es] show ?thesis
    by (simp add: stored_allocated_def)
qed

lemma stored_origin:
  "browserQueryClient (state_after es p) = Some c \<Longrightarrow>
   browserQueryClient p = Some c \<or> (\<exists>j<length es. \<not> es ! j \<and> returned es p ! j = c)"
proof (induction es arbitrary: p)
  case Nil
  then show ?case by simp
next
  case (Cons e es)
  let ?q = "snd (snd (getQueryClient e p))"
  from Cons.prems have "browserQueryClient (state_after es ?q) = Some c"
    by (simp add: state_after_Cons)
  from Cons.IH [OF this] show ?case
  proof
    assume q: "browserQueryClient ?q = Some c"
    show ?thesis
    proof (cases e p rule: getQueryClient_cases)
      case server
      with q show ?thesis by simp
    next
      case first
      with q have "\<not> (e # es) ! 0 \<and> returned (e # es) p ! 0 = c"
        by (simp add: returned_Cons)
      then show ?thesis by blast
    next
      case (later d)
      with q show ?thesis by simp
    qed
  next
    assume "\<exists>j<length es. \<not> es ! j \<and> returned es ?q ! j = c"
    then obtain j where "j < length es" "\<not> es ! j" "returned es ?q ! j = c" by blast
    then have "Suc j < length (e # es) \<and> \<not> (e # es) ! Suc j \<and> returned (e # es) p ! Suc j = c"
      by (simp add: returned_Cons)
    then show ?thesis by blast
  qed
qed

lemma server_result_not_stored:
  assumes "stored_allocated p" "i < length es" "es ! i"
  shows "browserQueryClient (state_after es p) \<noteq> Some (returned es p ! i)"
proof
  assume "browserQueryClient (state_after es p) = Some (returned es p ! i)"
  from stored_origin [OF this] show False
  proof
    assume "browserQueryClient p = Some (returned es p ! i)"
    with assms(1) have "returned es p ! i < length (heap p)"
      by (simp add: stored_allocated_def)
    with server_result_fresh [OF assms(2,3), of p] show False by simp
  next
    assume "\<exists>j<length es. \<not> es ! j \<and> returned es p ! j = returned es p ! i"
    with server_browser_differ [OF assms(1,2) _ assms(3)] show False by metis
  qed
qed

lemma assignments_stored:
  "browserQueryClient p = Some c \<Longrightarrow> assignments es p = []"
proof (induction es arbitrary: p)
  case Nil
  then show ?case by simp
next
  case (Cons e es)
  show ?case
    by (cases e p rule: getQueryClient_cases) (use Cons in \<open>simp_all add: assignments_Cons\<close>)
qed

lemma length_assignments:
  "length (assignments es p) = (if browserQueryClient p = None \<and> False \<in> set es then 1 else 0)"
proof (induction es arbitrary: p)
  case Nil
  then show ?case by simp
next
  case (Cons e es)
  show ?case
  proof (cases e p rule: getQueryClient_cases)
    case server
    with Cons [of "p\<lparr>heap := heap p @ [factory_client]\<rparr>"] show ?thesis
      by (simp add: assignments_Cons)
  next
    case first
    then show ?thesis by (simp add: assignments_Cons assignments_stored)
  next
    case (later c)
    then show ?thesis by (simp add: assignments_Cons assignments_stored)
  qed
qed

lemma stored_allocated_module_loaded: "stored_allocated module_loaded"
  by (simp add: stored_allocated_def module_loaded_def)

lemma only_factory_objects_module_loaded: "only_factory_objects module_loaded"
  by (simp add: only_factory_objects_def module_loaded_def)


section \<open>Properties of the endpoint\<close>

lemma str_simps [simp]: "str [] = []" "str (c # cs) = of_char c # str cs"
  by (simp_all add: str_def)

lemma digits_value_snoc: "digits_value (z @ [c]) = 10 * digits_value z + (c - 48)"
  by (simp add: digits_value_def)

lemma decimal_not_Nil: "decimal n \<noteq> []"
  by (subst decimal.simps) simp

lemma decimal_digits: "list_all decimal_digit (decimal n)"
proof (induction n rule: decimal.induct)
  case (1 n)
  show ?case
  proof (cases "n < 10")
    case True
    then show ?thesis by (subst decimal.simps) (simp add: decimal_digit_def)
  next
    case False
    have "n mod 10 < 10" by simp
    then have "decimal_digit (48 + n mod 10)"
      unfolding decimal_digit_def by linarith
    with False 1 show ?thesis by (subst decimal.simps) simp
  qed
qed

lemma digits_value_decimal: "digits_value (decimal n) = n"
proof (induction n rule: decimal.induct)
  case (1 n)
  show ?case
  proof (cases "n < 10")
    case True
    then show ?thesis by (subst decimal.simps) (simp add: digits_value_def)
  next
    case False
    with 1 show ?thesis by (subst decimal.simps) (simp add: digits_value_snoc)
  qed
qed

lemma decimal_hd: "decimal_digit (hd (decimal n))"
  using decimal_digits [of n] decimal_not_Nil [of n] by (cases "decimal n") simp_all

lemma digit_not_space: "decimal_digit c \<Longrightarrow> \<not> StrWhiteSpaceChar c"
  by (auto simp: decimal_digit_def StrWhiteSpaceChar_def)

lemma digit_not_sign: "decimal_digit c \<Longrightarrow> c \<noteq> 43 \<and> c \<noteq> 45"
  by (auto simp: decimal_digit_def)

lemma takeWhile_all: "list_all P xs \<Longrightarrow> takeWhile P xs = xs"
  by (induction xs) simp_all

lemma parseInt_digits:
  assumes "z \<noteq> []" "list_all decimal_digit z" "digits_value z \<le> 2 ^ 53"
  shows "parseInt z = Num (int (digits_value z))"
proof -
  from assms obtain c cs where z: "z = c # cs" by (cases z) auto
  with assms(2) have c: "decimal_digit c" by simp
  have dw: "dropWhile StrWhiteSpaceChar z = z"
    using z digit_not_space [OF c] by simp
  have tw: "takeWhile decimal_digit z = z"
    using assms(2) by (rule takeWhile_all)
  have "hd z = c" using z by simp
  with digit_not_sign [OF c] assms(1,3) show ?thesis
    by (simp add: parseInt_def Let_def dw tw)
qed

lemma parseInt_decimal: "n \<le> 2 ^ 53 \<Longrightarrow> parseInt (decimal n) = Num (int n)"
  using parseInt_digits [of "decimal n"]
  by (simp add: decimal_not_Nil decimal_digits digits_value_decimal)

lemma parseInt_1000: "parseInt (str ''1000'') = Num 1000"
  by (simp add: parseInt_def StrWhiteSpaceChar_def decimal_digit_def digits_value_def)

lemma parseInt_NaN_iff:
  "parseInt s = NaN \<longleftrightarrow>
     (let S = dropWhile StrWhiteSpaceChar s;
          S' = (if S \<noteq> [] \<and> (hd S = 43 \<or> hd S = 45) then tl S else S)
      in S' = [] \<or> \<not> decimal_digit (hd S'))"
proof -
  define S where "S = dropWhile StrWhiteSpaceChar s"
  define S' where "S' = (if S \<noteq> [] \<and> (hd S = 43 \<or> hd S = 45) then tl S else S)"
  have "parseInt s = NaN \<longleftrightarrow> takeWhile decimal_digit S' = []"
    unfolding parseInt_def Let_def S_def S'_def by simp
  also have "\<dots> \<longleftrightarrow> S' = [] \<or> \<not> decimal_digit (hd S')"
    by (cases S') simp_all
  finally show ?thesis
    unfolding Let_def S_def S'_def .
qed

lemma GET_delay:
  "setTimeout_delay (fst (GET request now m)) =
     parseInt (or_string (searchParams_get (searchParams request) (str ''delay'')) (str ''1000''))"
  by (simp add: GET_def Let_def del: str_simps)

lemma GET_delay_absent:
  "searchParams_get (searchParams request) (str ''delay'') = None \<Longrightarrow>
   setTimeout_delay (fst (GET request now m)) = Num 1000"
  by (simp add: GET_delay or_string_def parseInt_1000 del: str_simps)

lemma GET_delay_empty:
  "searchParams_get (searchParams request) (str ''delay'') = Some [] \<Longrightarrow>
   setTimeout_delay (fst (GET request now m)) = Num 1000"
  by (simp add: GET_delay or_string_def parseInt_1000 del: str_simps)

lemma GET_delay_present:
  "searchParams_get (searchParams request) (str ''delay'') = Some v \<Longrightarrow> v \<noteq> [] \<Longrightarrow>
   setTimeout_delay (fst (GET request now m)) = parseInt v"
  by (simp add: GET_delay or_string_def del: str_simps)

lemma GET_waited:
  "waited_ms (fst (GET request now m)) = setTimeout_wait (setTimeout_delay (fst (GET request now m)))"
  by (simp add: GET_def Let_def del: str_simps)

lemma setTimeout_wait_in_range:
  "1 \<le> k \<Longrightarrow> k \<le> 2147483647 \<Longrightarrow> setTimeout_wait (Num k) = nat k"
  by (simp add: setTimeout_wait_def)

lemma GET_state: "snd (GET request now m) = m"
  by (simp add: GET_def Let_def del: str_simps)

lemma GET_json:
  "json (fst (GET request now m)) =
     \<lparr>response_posts = posts m,
      meta = \<lparr>fetchedAt = now, totalCount = int (length (posts m)), executedOn = str ''server''\<rparr>\<rparr>"
  by (simp add: GET_def Let_def del: str_simps)

lemma length_posts: "length (posts route_loaded) = 5"
  by (simp add: route_loaded_def)

lemma post_ids: "map post_id (posts route_loaded) = [1, 2, 3, 4, 5]"
  by (simp add: route_loaded_def)


section \<open>The claims about the factory\<close>

text \<open>
  Claim C1. In the browser (\<open>isServer\<close> false) the first call after the module is loaded
  constructs a client and stores its reference; a call that finds a stored reference
  returns it and leaves the state as it was; and in every sequence of calls, from any
  state, any two browser calls return the same reference, also when server calls come
  in between.
\<close>

theorem session_scoped_calls_reuse_singleton:
  "getQueryClient False module_loaded =
     (0, [Assign_browserQueryClient 0], \<lparr>heap = [factory_client], browserQueryClient = Some 0\<rparr>)
   \<and> (browserQueryClient p = Some c \<longrightarrow> getQueryClient False p = (c, [], p))
   \<and> (i < length es \<and> j < length es \<and> \<not> es ! i \<and> \<not> es ! j \<longrightarrow>
        returned es q ! i = returned es q ! j)"
proof (intro conjI impI)
  show "getQueryClient False module_loaded =
     (0, [Assign_browserQueryClient 0], \<lparr>heap = [factory_client], browserQueryClient = Some 0\<rparr>)"
    by (simp add: getQueryClient_browser_first module_loaded_def)
next
  assume "browserQueryClient p = Some c"
  then show "getQueryClient False p = (c, [], p)"
    by (rule getQueryClient_browser_later)
next
  assume a: "i < length es \<and> j < length es \<and> \<not> es ! i \<and> \<not> es ! j"
  then have "browserQueryClient (state_after es q) = Some (returned es q ! i)"
    "browserQueryClient (state_after es q) = Some (returned es q ! j)"
    by (simp_all add: browser_result_stored)
  then show "returned es q ! i = returned es q ! j" by simp
qed

text \<open>The hypotheses of the theorem for C1 hold at a concrete input.\<close>

theorem session_scoped_calls_reuse_singleton_witness:
  "browserQueryClient \<lparr>heap = [factory_client], browserQueryClient = Some 0\<rparr> = Some 0
   \<and> getQueryClient False \<lparr>heap = [factory_client], browserQueryClient = Some 0\<rparr> =
       (0, [], \<lparr>heap = [factory_client], browserQueryClient = Some 0\<rparr>)
   \<and> (0 < length [False, True, False] \<and> 2 < length [False, True, False]
       \<and> \<not> [False, True, False] ! 0 \<and> \<not> [False, True, False] ! 2)
   \<and> returned [False, True, False] module_loaded ! 0
       = returned [False, True, False] module_loaded ! 2"
proof -
  have "browserQueryClient \<lparr>heap = [factory_client], browserQueryClient = Some 0\<rparr> = Some 0"
    "0 < length [False, True, False] \<and> 2 < length [False, True, False]
       \<and> \<not> [False, True, False] ! 0 \<and> \<not> [False, True, False] ! 2"
    by simp_all
  with session_scoped_calls_reuse_singleton
    [where p = "\<lparr>heap = [factory_client], browserQueryClient = Some 0\<rparr>" and c = 0
       and es = "[False, True, False]" and i = 0 and j = 2 and q = module_loaded]
  show ?thesis by blast
qed

text \<open>
  Claim C2. In every sequence of calls, from any state, two different server calls
  (\<open>isServer\<close> true) return different references. A server call returns a reference that
  was not allocated before, executes no assignment and leaves \<open>browserQueryClient\<close> as it
  was, so the stored reference is never the one it returns.
\<close>

theorem request_scoped_calls_distinct:
  "(i < length es \<and> j < length es \<and> i \<noteq> j \<and> es ! i \<and> es ! j \<longrightarrow>
      returned es p ! i \<noteq> returned es p ! j)
   \<and> fst (getQueryClient True p) = length (heap p)
   \<and> fst (snd (getQueryClient True p)) = []
   \<and> browserQueryClient (snd (snd (getQueryClient True p))) = browserQueryClient p
   \<and> (stored_allocated p \<longrightarrow>
        browserQueryClient (snd (snd (getQueryClient True p))) \<noteq> Some (fst (getQueryClient True p)))"
proof (intro conjI impI)
  assume a: "i < length es \<and> j < length es \<and> i \<noteq> j \<and> es ! i \<and> es ! j"
  then consider "i < j" | "j < i" by linarith
  then show "returned es p ! i \<noteq> returned es p ! j"
  proof cases
    case 1
    with a server_results_differ [of i es j p] show ?thesis by simp
  next
    case 2
    with a server_results_differ [of j es i p] show ?thesis by simp
  qed
next
  assume "stored_allocated p"
  then show "browserQueryClient (snd (snd (getQueryClient True p))) \<noteq> Some (fst (getQueryClient True p))"
    by (auto simp: getQueryClient_server stored_allocated_def)
qed (simp_all add: getQueryClient_server)

text \<open>The hypotheses of the theorem for C2 hold at a concrete input.\<close>

theorem request_scoped_calls_distinct_witness:
  "(0 < length [True, True] \<and> 1 < length [True, True] \<and> (0::nat) \<noteq> 1
      \<and> [True, True] ! 0 \<and> [True, True] ! 1)
   \<and> returned [True, True] module_loaded ! 0 \<noteq> returned [True, True] module_loaded ! 1
   \<and> stored_allocated module_loaded
   \<and> browserQueryClient (snd (snd (getQueryClient True module_loaded))) \<noteq>
       Some (fst (getQueryClient True module_loaded))"
proof -
  have "0 < length [True, True] \<and> 1 < length [True, True] \<and> (0::nat) \<noteq> 1
      \<and> [True, True] ! 0 \<and> [True, True] ! 1"
    by simp
  with stored_allocated_module_loaded
    request_scoped_calls_distinct [where es = "[True, True]" and i = 0 and j = 1 and p = module_loaded]
  show ?thesis by blast
qed

text \<open>
  Claim C3. In every sequence of calls after the module is loaded, the reference a server
  call returns differs from the reference a browser call returns, whichever comes first,
  and is never the reference stored in \<open>browserQueryClient\<close>.
\<close>

theorem request_and_session_results_differ:
  "(i < length es \<and> j < length es \<and> es ! i \<and> \<not> es ! j \<longrightarrow>
      returned es module_loaded ! i \<noteq> returned es module_loaded ! j)
   \<and> (i < length es \<and> es ! i \<longrightarrow>
        browserQueryClient (state_after es module_loaded) \<noteq> Some (returned es module_loaded ! i))"
  using server_browser_differ [OF stored_allocated_module_loaded, of i es j]
    server_result_not_stored [OF stored_allocated_module_loaded, of i es]
  by blast

text \<open>The hypotheses of the theorem for C3 hold at a concrete input.\<close>

theorem request_and_session_results_differ_witness:
  "(2 < length [True, False, True] \<and> 1 < length [True, False, True]
      \<and> [True, False, True] ! 2 \<and> \<not> [True, False, True] ! 1)
   \<and> returned [True, False, True] module_loaded ! 2 \<noteq> returned [True, False, True] module_loaded ! 1
   \<and> browserQueryClient (state_after [True, False, True] module_loaded) \<noteq>
       Some (returned [True, False, True] module_loaded ! 2)"
proof -
  have "2 < length [True, False, True] \<and> 1 < length [True, False, True]
      \<and> [True, False, True] ! 2 \<and> \<not> [True, False, True] ! 1"
    by simp
  with request_and_session_results_differ [where es = "[True, False, True]" and i = 2 and j = 1]
  show ?thesis by blast
qed

text \<open>
  Claim C4. In every sequence of calls after the module is loaded, each returned reference
  points to an allocated object whose options are \<open>staleTime = 60000\<close>,
  \<open>refetchOnWindowFocus = false\<close> and \<open>retry = 1\<close>. The factory writes an object when it
  allocates it and never again: every object of the store is the same after any further
  sequence of calls.
\<close>

theorem returned_client_configuration:
  "(i < length es \<longrightarrow>
      returned es module_loaded ! i < length (heap (state_after es module_loaded))
      \<and> staleTime (queries (defaultOptions
           (heap (state_after es module_loaded) ! (returned es module_loaded ! i)))) = 60000
      \<and> refetchOnWindowFocus (queries (defaultOptions
           (heap (state_after es module_loaded) ! (returned es module_loaded ! i)))) = False
      \<and> retry (queries (defaultOptions
           (heap (state_after es module_loaded) ! (returned es module_loaded ! i)))) = 1)
   \<and> (k < length (heap p) \<longrightarrow> heap (state_after es' p) ! k = heap p ! k)"
proof (intro conjI impI)
  assume i: "i < length es"
  let ?r = "returned es module_loaded ! i"
  let ?h = "heap (state_after es module_loaded)"
  show r: "?r < length ?h"
    using stored_allocated_module_loaded i by (rule returned_allocated)
  have "only_factory_objects (state_after es module_loaded)"
    using only_factory_objects_module_loaded by (rule only_factory_objects_after)
  with r have c: "?h ! ?r = factory_client"
    by (simp add: only_factory_objects_def list_all_length)
  show "staleTime (queries (defaultOptions (?h ! ?r))) = 60000"
    "refetchOnWindowFocus (queries (defaultOptions (?h ! ?r))) = False"
    "retry (queries (defaultOptions (?h ! ?r))) = 1"
    by (simp_all add: c factory_client_def)
next
  assume "k < length (heap p)"
  then show "heap (state_after es' p) ! k = heap p ! k" by (rule heap_kept)
qed

text \<open>The hypotheses of the theorem for C4 hold at a concrete input.\<close>

theorem returned_client_configuration_witness:
  "1 < length [True, False, True]
   \<and> staleTime (queries (defaultOptions
        (heap (state_after [True, False, True] module_loaded)
           ! (returned [True, False, True] module_loaded ! 1)))) = 60000
   \<and> refetchOnWindowFocus (queries (defaultOptions
        (heap (state_after [True, False, True] module_loaded)
           ! (returned [True, False, True] module_loaded ! 1)))) = False
   \<and> retry (queries (defaultOptions
        (heap (state_after [True, False, True] module_loaded)
           ! (returned [True, False, True] module_loaded ! 1)))) = 1
   \<and> 0 < length (heap \<lparr>heap = [factory_client], browserQueryClient = Some 0\<rparr>)
   \<and> heap (state_after [False, True] \<lparr>heap = [factory_client], browserQueryClient = Some 0\<rparr>) ! 0
       = heap \<lparr>heap = [factory_client], browserQueryClient = Some 0\<rparr> ! 0"
proof -
  have "1 < length [True, False, True]"
    "0 < length (heap \<lparr>heap = [factory_client], browserQueryClient = Some 0\<rparr>)"
    by simp_all
  with returned_client_configuration [where es = "[True, False, True]" and i = 1
      and p = "\<lparr>heap = [factory_client], browserQueryClient = Some 0\<rparr>" and k = 0
      and es' = "[False, True]"]
  show ?thesis by blast
qed

text \<open>
  Claim C8 says that every sequence of calls executes exactly one assignment to
  \<open>browserQueryClient\<close>. Two server calls execute none.
\<close>

theorem singleton_write_count_counterexample:
  "length (assignments [True, True] module_loaded) \<noteq> 1"
  by (simp add: assignments_Cons getQueryClient_server)

text \<open>
  Claim C8, amended. A server call executes no assignment, leaves \<open>browserQueryClient\<close> as
  it was and changes the store only by the object it allocates. A browser call that finds a
  stored reference executes no assignment and leaves the whole state as it was; a browser
  call that finds none executes the one assignment. A sequence of calls after the module is
  loaded executes exactly one assignment when it has a browser call, and none otherwise.
\<close>

theorem singleton_written_at_most_once:
  "fst (snd (getQueryClient True p)) = []
   \<and> browserQueryClient (snd (snd (getQueryClient True p))) = browserQueryClient p
   \<and> heap (snd (snd (getQueryClient True p))) = heap p @ [factory_client]
   \<and> (browserQueryClient p = Some c \<longrightarrow> getQueryClient False p = (c, [], p))
   \<and> (browserQueryClient p = None \<longrightarrow>
        fst (snd (getQueryClient False p)) = [Assign_browserQueryClient (length (heap p))])
   \<and> length (assignments es module_loaded) = (if False \<in> set es then 1 else 0)"
  by (simp add: getQueryClient_server getQueryClient_browser_later getQueryClient_browser_first
      length_assignments module_loaded_def)

text \<open>The hypotheses of the theorem for C8 hold at a concrete input.\<close>

theorem singleton_written_at_most_once_witness:
  "browserQueryClient \<lparr>heap = [factory_client], browserQueryClient = Some 0\<rparr> = Some 0
   \<and> getQueryClient False \<lparr>heap = [factory_client], browserQueryClient = Some 0\<rparr> =
       (0, [], \<lparr>heap = [factory_client], browserQueryClient = Some 0\<rparr>)
   \<and> browserQueryClient module_loaded = None
   \<and> fst (snd (getQueryClient False module_loaded))
       = [Assign_browserQueryClient (length (heap module_loaded))]
   \<and> length (assignments [True, False, True] module_loaded) = 1"
proof -
  have "browserQueryClient \<lparr>heap = [factory_client], browserQueryClient = Some 0\<rparr> = Some 0"
    "browserQueryClient module_loaded = None" "False \<in> set [True, False, True]"
    by (simp_all add: module_loaded_def)
  with singleton_written_at_most_once
        [where p = "\<lparr>heap = [factory_client], browserQueryClient = Some 0\<rparr>" and c = 0
           and es = "[True, False, True]"]
    singleton_written_at_most_once [where p = module_loaded]
  show ?thesis by simp
qed


section \<open>The claims about the endpoint and the query options\<close>

text \<open>
  Claim C5. Whatever the request (hence whatever the delay) and the clock reading, the
  body has \<open>meta.totalCount\<close> equal to the length of the post list, which is 5,
  \<open>meta.executedOn\<close> equal to \<open>"server"\<close>, and \<open>posts\<close> equal to the list of the module,
  five records with the ids 1 to 5 in this order; the call leaves the list as it was, so
  the same holds for the call after it.
\<close>

theorem GET_body_fixed:
  "totalCount (meta (json (fst (GET request now route_loaded)))) = int (length (posts route_loaded))
   \<and> totalCount (meta (json (fst (GET request now route_loaded)))) = 5
   \<and> executedOn (meta (json (fst (GET request now route_loaded)))) = str ''server''
   \<and> response_posts (json (fst (GET request now route_loaded))) = posts route_loaded
   \<and> length (response_posts (json (fst (GET request now route_loaded)))) = 5
   \<and> map post_id (response_posts (json (fst (GET request now route_loaded)))) = [1, 2, 3, 4, 5]
   \<and> snd (GET request now route_loaded) = route_loaded"
  by (simp add: GET_json GET_state length_posts post_ids del: str_simps)

text \<open>
  Claim C6 says that for every request the handler waits exactly the parsed delay before
  it responds. For \<open>delay=-5\<close> the parsed delay is \<open>-5\<close>, and the timer runs one
  millisecond.
\<close>

theorem GET_wait_counterexample:
  "setTimeout_delay (fst (GET \<lparr>searchParams = [(str ''delay'', str ''-5'')]\<rparr> [] route_loaded))
     = Num (- 5)
   \<and> waited_ms (fst (GET \<lparr>searchParams = [(str ''delay'', str ''-5'')]\<rparr> [] route_loaded)) = 1
   \<and> Num (int (waited_ms (fst (GET \<lparr>searchParams = [(str ''delay'', str ''-5'')]\<rparr> []
                                      route_loaded))))
       \<noteq> setTimeout_delay (fst (GET \<lparr>searchParams = [(str ''delay'', str ''-5'')]\<rparr> []
                                      route_loaded))"
  by (simp add: GET_def Let_def searchParams_get_def or_string_def parseInt_def
      StrWhiteSpaceChar_def decimal_digit_def digits_value_def setTimeout_wait_def)

text \<open>
  Claim C6, amended. The handler hands the parsed \<open>delay\<close> parameter to the timer: 1000
  when the parameter is not supplied (or empty), \<open>parseInt\<close> of its value otherwise. It
  waits exactly the parsed delay before it answers when that is an integer from 1 to
  2147483647, so for the numeral of such an \<open>n\<close> it waits \<open>n\<close> milliseconds, and 1000
  milliseconds by default. For any other parsed delay the timer runs one millisecond.
\<close>

theorem GET_waits_parsed_delay_in_timer_range:
  "(searchParams_get (searchParams request) (str ''delay'') = None
      \<or> searchParams_get (searchParams request) (str ''delay'') = Some [] \<longrightarrow>
      setTimeout_delay (fst (GET request now m)) = Num 1000
      \<and> waited_ms (fst (GET request now m)) = 1000)
   \<and> (searchParams_get (searchParams request) (str ''delay'') = Some v \<and> v \<noteq> [] \<longrightarrow>
        setTimeout_delay (fst (GET request now m)) = parseInt v)
   \<and> (searchParams_get (searchParams request) (str ''delay'') = Some v \<and> v \<noteq> []
        \<and> parseInt v = Num k \<and> 1 \<le> k \<and> k \<le> 2147483647 \<longrightarrow>
        int (waited_ms (fst (GET request now m))) = k)
   \<and> (searchParams_get (searchParams request) (str ''delay'') = Some (decimal n)
        \<and> 1 \<le> n \<and> n \<le> 2147483647 \<longrightarrow>
        setTimeout_delay (fst (GET request now m)) = Num (int n)
        \<and> waited_ms (fst (GET request now m)) = n)
   \<and> (setTimeout_delay (fst (GET request now m)) = NaN
        \<or> setTimeout_delay (fst (GET request now m)) = Huge negative
        \<or> setTimeout_delay (fst (GET request now m)) = Num k \<and> (k < 1 \<or> 2147483647 < k) \<longrightarrow>
        waited_ms (fst (GET request now m)) = 1)"
proof (intro conjI impI)
  assume "searchParams_get (searchParams request) (str ''delay'') = None
      \<or> searchParams_get (searchParams request) (str ''delay'') = Some []"
  then have d: "setTimeout_delay (fst (GET request now m)) = Num 1000"
    using GET_delay_absent [of request now m] GET_delay_empty [of request now m] by blast
  then show "setTimeout_delay (fst (GET request now m)) = Num 1000" .
  from d show "waited_ms (fst (GET request now m)) = 1000"
    by (simp add: GET_waited setTimeout_wait_def)
next
  assume "searchParams_get (searchParams request) (str ''delay'') = Some v \<and> v \<noteq> []"
  then show "setTimeout_delay (fst (GET request now m)) = parseInt v"
    by (simp add: GET_delay_present)
next
  assume a: "searchParams_get (searchParams request) (str ''delay'') = Some v \<and> v \<noteq> []
        \<and> parseInt v = Num k \<and> 1 \<le> k \<and> k \<le> 2147483647"
  then have "setTimeout_delay (fst (GET request now m)) = Num k"
    by (simp add: GET_delay_present)
  with a show "int (waited_ms (fst (GET request now m))) = k"
    by (simp add: GET_waited setTimeout_wait_in_range)
next
  assume a: "searchParams_get (searchParams request) (str ''delay'') = Some (decimal n)
        \<and> 1 \<le> n \<and> n \<le> 2147483647"
  then have "n \<le> 2 ^ 53" by simp
  then have "parseInt (decimal n) = Num (int n)" by (rule parseInt_decimal)
  with a show d: "setTimeout_delay (fst (GET request now m)) = Num (int n)"
    using GET_delay_present [of request "decimal n" now m] by (simp add: decimal_not_Nil)
  from a have "1 \<le> int n" "int n \<le> 2147483647" by simp_all
  then show "waited_ms (fst (GET request now m)) = n"
    by (simp add: GET_waited d setTimeout_wait_in_range)
next
  assume "setTimeout_delay (fst (GET request now m)) = NaN
        \<or> setTimeout_delay (fst (GET request now m)) = Huge negative
        \<or> setTimeout_delay (fst (GET request now m)) = Num k \<and> (k < 1 \<or> 2147483647 < k)"
  then show "waited_ms (fst (GET request now m)) = 1"
    by (auto simp: GET_waited setTimeout_wait_def)
qed

text \<open>The hypotheses of the theorem for C6 hold at concrete inputs.\<close>

theorem GET_waits_parsed_delay_in_timer_range_witness:
  "(searchParams_get (searchParams \<lparr>searchParams = []\<rparr>) (str ''delay'') = None
      \<or> searchParams_get (searchParams \<lparr>searchParams = []\<rparr>) (str ''delay'') = Some [])
   \<and> waited_ms (fst (GET \<lparr>searchParams = []\<rparr> [] route_loaded)) = 1000
   \<and> (searchParams_get (searchParams \<lparr>searchParams = [(str ''delay'', str ''250'')]\<rparr>) (str ''delay'')
         = Some (str ''250'')
       \<and> str ''250'' \<noteq> [] \<and> parseInt (str ''250'') = Num 250 \<and> (1::int) \<le> 250
       \<and> (250::int) \<le> 2147483647)
   \<and> int (waited_ms (fst (GET \<lparr>searchParams = [(str ''delay'', str ''250'')]\<rparr> [] route_loaded)))
       = 250
   \<and> (searchParams_get (searchParams \<lparr>searchParams = [(str ''delay'', str ''250'')]\<rparr>) (str ''delay'')
         = Some (decimal 250)
       \<and> (1::nat) \<le> 250 \<and> (250::nat) \<le> 2147483647)
   \<and> setTimeout_delay (fst (GET \<lparr>searchParams = [(str ''delay'', str ''250'')]\<rparr> [] route_loaded))
       = Num (int 250)"
proof -
  let ?none = "\<lparr>searchParams = []\<rparr> :: NextRequest"
  let ?some = "\<lparr>searchParams = [(str ''delay'', str ''250'')]\<rparr> :: NextRequest"
  note thm0 = GET_waits_parsed_delay_in_timer_range
      [where request = ?none and now = "[]" and m = route_loaded and v = "[]" and k = 0 and n = 0
        and negative = False]
  note thm1 = GET_waits_parsed_delay_in_timer_range
      [where request = ?some and now = "[]" and m = route_loaded and v = "str ''250''"
        and k = 250 and n = 250 and negative = False]
  have n: "decimal 250 = str ''250''"
    by (simp add: decimal.simps)
  have h0: "searchParams_get (searchParams ?none) (str ''delay'') = None
      \<or> searchParams_get (searchParams ?none) (str ''delay'') = Some []"
    by (simp add: searchParams_get_def)
  have h1: "searchParams_get (searchParams ?some) (str ''delay'') = Some (str ''250'')
       \<and> str ''250'' \<noteq> [] \<and> parseInt (str ''250'') = Num 250 \<and> (1::int) \<le> 250
       \<and> (250::int) \<le> 2147483647"
    by (simp add: searchParams_get_def parseInt_def StrWhiteSpaceChar_def decimal_digit_def
        digits_value_def)
  have h2: "searchParams_get (searchParams ?some) (str ''delay'') = Some (decimal 250)
       \<and> (1::nat) \<le> 250 \<and> (250::nat) \<le> 2147483647"
    by (simp add: searchParams_get_def n)
  have c0: "waited_ms (fst (GET ?none [] route_loaded)) = 1000"
    by (rule conjunct2 [OF mp [OF thm0 [THEN conjunct1] h0]])
  have c1: "int (waited_ms (fst (GET ?some [] route_loaded))) = 250"
    by (rule mp [OF thm1 [THEN conjunct2, THEN conjunct2, THEN conjunct1] h1])
  have c2: "setTimeout_delay (fst (GET ?some [] route_loaded)) = Num (int 250)"
    by (rule conjunct1
        [OF mp [OF thm1 [THEN conjunct2, THEN conjunct2, THEN conjunct2, THEN conjunct1] h2]])
  show ?thesis
    by (rule conjI [OF h0 conjI [OF c0 conjI [OF h1 conjI [OF c1 conjI [OF h2 c2]]]]])
qed

text \<open>
  Claim C7. Two calls in a row whose requests carry the same \<open>delay\<close> parameter produce
  bodies that are equal once the time stamp is blanked, arm the timer with the same value,
  and both leave the post list of the module as it was.
\<close>

theorem GET_deterministic_up_to_time:
  assumes "searchParams_get (searchParams r1) (str ''delay'')
             = searchParams_get (searchParams r2) (str ''delay'')"
  shows "without_fetchedAt (json (fst (GET r1 now1 m)))
           = without_fetchedAt (json (fst (GET r2 now2 (snd (GET r1 now1 m)))))
         \<and> setTimeout_delay (fst (GET r1 now1 m))
             = setTimeout_delay (fst (GET r2 now2 (snd (GET r1 now1 m))))
         \<and> snd (GET r1 now1 m) = m
         \<and> snd (GET r2 now2 (snd (GET r1 now1 m))) = m"
  using assms by (simp add: GET_json GET_state GET_delay without_fetchedAt_def del: str_simps)

text \<open>The hypotheses of the theorem for C7 hold at a concrete input.\<close>

theorem GET_deterministic_up_to_time_witness:
  "searchParams_get (searchParams \<lparr>searchParams = [(str ''delay'', str ''1000'')]\<rparr>) (str ''delay'')
     = searchParams_get
         (searchParams \<lparr>searchParams = [(str ''page'', str ''2''), (str ''delay'', str ''1000'')]\<rparr>)
         (str ''delay'')
   \<and> without_fetchedAt
         (json (fst (GET \<lparr>searchParams = [(str ''delay'', str ''1000'')]\<rparr> (str ''a'') route_loaded)))
       = without_fetchedAt
           (json (fst (GET \<lparr>searchParams = [(str ''page'', str ''2''), (str ''delay'', str ''1000'')]\<rparr>
              (str ''b'')
              (snd (GET \<lparr>searchParams = [(str ''delay'', str ''1000'')]\<rparr> (str ''a'') route_loaded)))))
   \<and> snd (GET \<lparr>searchParams = [(str ''page'', str ''2''), (str ''delay'', str ''1000'')]\<rparr>
            (str ''b'')
            (snd (GET \<lparr>searchParams = [(str ''delay'', str ''1000'')]\<rparr> (str ''a'') route_loaded)))
       = route_loaded"
proof -
  have h: "searchParams_get (searchParams \<lparr>searchParams = [(str ''delay'', str ''1000'')]\<rparr>)
       (str ''delay'')
     = searchParams_get
         (searchParams \<lparr>searchParams = [(str ''page'', str ''2''), (str ''delay'', str ''1000'')]\<rparr>)
         (str ''delay'')"
    by (simp add: searchParams_get_def)
  from GET_deterministic_up_to_time [OF h, of "str ''a''" route_loaded "str ''b''"] h
  show ?thesis by blast
qed



text \<open>
  Claim C10. For every delay \<open>d\<close> the query key is \<open>['posts', d]\<close> (an omitted argument is
  the delay 1000), and two keys are equal exactly when the delays are. \<open>usePosts\<close>,
  \<open>usePostsSuspense\<close> and the prefetch calls of the pages hand the options of
  \<open>postsQueryOptions\<close> to the library, so the key a prefetch passes equals the key a hook
  passes exactly when the delays match; the SSR page and its list agree on 1500, the
  streaming page and its list on 2000.
\<close>

theorem postsQueryOptions_key_injective:
  "queryKey (postsQueryOptions (Some d)) = [KStr (str ''posts''), KNum d]
   \<and> queryKey (postsQueryOptions None) = [KStr (str ''posts''), KNum 1000]
   \<and> (queryKey (postsQueryOptions (Some d1)) = queryKey (postsQueryOptions (Some d2)) \<longleftrightarrow> d1 = d2)
   \<and> (queryKey (postsQueryOptions a1) = queryKey (postsQueryOptions a2)
        \<longleftrightarrow> default_param a1 1000 = default_param a2 1000)
   \<and> usePosts useQuery a1 = useQuery (postsQueryOptions a1)
   \<and> usePostsSuspense useSuspenseQuery a1 = useSuspenseQuery (postsQueryOptions a1)
   \<and> SSRDemoPage_prefetch prefetchQuery = prefetchQuery (postsQueryOptions (Some 1500))
   \<and> PostListWithData_prefetch prefetchQuery = prefetchQuery (postsQueryOptions (Some 2000))
   \<and> (SSRDemoPage_prefetch queryKey = usePosts queryKey a1 \<longleftrightarrow> default_param a1 1000 = 1500)
   \<and> (PostListWithData_prefetch queryKey = usePostsSuspense queryKey a1
        \<longleftrightarrow> default_param a1 1000 = 2000)
   \<and> (usePosts queryKey a1 = usePostsSuspense queryKey a2
        \<longleftrightarrow> default_param a1 1000 = default_param a2 1000)
   \<and> SSRDemoPage_prefetch queryKey = SSRPostList_query queryKey
   \<and> PostListWithData_prefetch queryKey = StreamingPostList_query queryKey"
  by (auto simp add: postsQueryOptions_def usePosts_def usePostsSuspense_def SSRDemoPage_prefetch_def
      PostListWithData_prefetch_def SSRPostList_query_def StreamingPostList_query_def
      default_param_def Let_def simp del: str_simps split: option.splits)

text \<open>The hypotheses of the theorem for C10 hold at a concrete input.\<close>

theorem postsQueryOptions_key_injective_witness:
  "queryKey (postsQueryOptions (Some 1500)) = [KStr (str ''posts''), KNum 1500]
   \<and> queryKey (postsQueryOptions (Some 1500)) \<noteq> queryKey (postsQueryOptions (Some 2000))
   \<and> SSRDemoPage_prefetch queryKey = usePosts queryKey (Some 1500)
   \<and> PostListWithData_prefetch queryKey \<noteq> usePostsSuspense queryKey (Some 1500)"
proof -
  have "(1500::int) \<noteq> 2000" "default_param (Some 1500) 1000 = (1500::int)"
    "default_param (Some 1500) 1000 \<noteq> (2000::int)"
    by (simp_all add: default_param_def)
  with postsQueryOptions_key_injective [where d = 1500 and ?d1.0 = 1500 and ?d2.0 = 2000
      and ?a1.0 = "Some 1500" and ?a2.0 = None and useQuery = queryKey
      and useSuspenseQuery = queryKey and prefetchQuery = queryKey]
  show ?thesis by blast
qed

end
